theory Spec2Isabelle
  imports Complex_Main "HOL-Library.Word"
begin

section \<open>Memory, bytes and the size_t header\<close>

text \<open>
  Both programs work on raw byte buffers through pointers. A buffer is modelled as a
  store from byte offsets to bytes; a pointer is an offset into it, and the null
  pointer is offset 0 of the address space (only \<open>HelloWorldDxeInitialize\<close> tests a
  pointer against it). For the driver the store is the shared region itself, addressed
  from \<open>shm_array\<close>. The target is x86-64: \<open>sizeof(size_t)\<close> is 8 and the bytes of
  a \<open>size_t\<close> are stored least significant first.
\<close>

type_synonym byte = "8 word"
type_synonym addr = nat
type_synonym memory = "addr \<Rightarrow> byte"

definition byte_of_char :: "char \<Rightarrow> byte" where
  "byte_of_char c = of_nat (of_char c)"

text \<open>\<open>sizeof(size_t)\<close>, the width of the length field at the start of the region.\<close>

definition header_size :: nat where
  "header_size = 8"

text \<open>The \<open>k\<close> low bytes of a number, least significant first, and their value.\<close>

fun le_bytes :: "nat \<Rightarrow> nat \<Rightarrow> byte list" where
  "le_bytes n 0 = []"
| "le_bytes n (Suc k) = of_nat (n mod 256) # le_bytes (n div 256) k"

fun le_nat :: "byte list \<Rightarrow> nat" where
  "le_nat [] = 0"
| "le_nat (b # bs) = unat b + 256 * le_nat bs"

text \<open>\<open>memcpy(dst, src, n)\<close> with the \<open>n\<close> source bytes given as a list.\<close>

fun memcpy :: "memory \<Rightarrow> addr \<Rightarrow> byte list \<Rightarrow> memory" where
  "memcpy mem dst [] = mem"
| "memcpy mem dst (b # bs) = memcpy (mem(dst := b)) (Suc dst) bs"

text \<open>The \<open>n\<close> bytes of the store that start at offset \<open>a\<close>.\<close>

definition load_bytes :: "memory \<Rightarrow> addr \<Rightarrow> nat \<Rightarrow> byte list" where
  "load_bytes mem a n = map (\<lambda>i. mem (a + i)) [0..<n]"

text \<open>The value of the length field: the \<open>size_t\<close> held in the first bytes of the region.\<close>

definition length_field :: "memory \<Rightarrow> nat" where
  "length_field shm = le_nat (load_bytes shm 0 header_size)"

section \<open>The test driver (simple-example/testcode.c)\<close>

subsection \<open>rand_string\<close>

text \<open>
  \<open>const char charset[]\<close>: the characters of the literal; \<open>sizeof charset - 1\<close> is
  their number.
\<close>

definition charset :: "byte list" where
  "charset = map byte_of_char
     ''abcdefghijklmnopqrstuvwxyzABCDEFGHIJKLMNOPQRSTUVWXYZ0123456789,.-#'?!''"

text \<open>
  The C library's \<open>rand()\<close> is not part of the program. It is a parameter: \<open>rnd k\<close>
  is the value of the \<open>k\<close>-th call (a number from 0 to \<open>RAND_MAX\<close>, so never
  negative), and the count of calls made so far is threaded with the store.

  The \<open>for\<close> loop of \<open>rand_string\<close>, entered after \<open>--size\<close>:
  \<open>str[n] = charset[rand() % (sizeof charset - 1)]\<close> for \<open>n\<close> up to \<open>sz\<close>.
  Sizes are \<open>size_t\<close> in the source; \<open>n\<close> stays below \<open>sz\<close> and \<open>--size\<close> is
  guarded by \<open>if (size)\<close>, so nothing wraps and they are natural numbers here.
\<close>

function rand_string_loop ::
  "(nat \<Rightarrow> nat) \<Rightarrow> addr \<Rightarrow> nat \<Rightarrow> nat \<Rightarrow> memory \<times> nat \<Rightarrow> memory \<times> nat" where
  "rand_string_loop rnd str sz n (mem, k) =
     (if n < sz then
        (let key = rnd k mod (length charset)
         in rand_string_loop rnd str sz (n + 1) (mem(str + n := charset ! key), k + 1))
      else (mem, k))"
  by pat_completeness auto
termination
  by (relation "measure (\<lambda>(rnd, str, sz, n, s). sz - n)") auto

declare rand_string_loop.simps [simp del]

text \<open>
  \<open>rand_string(str, size)\<close>: the returned pointer, the store and the count of
  \<open>rand()\<close> calls afterwards.
\<close>

definition rand_string ::
  "(nat \<Rightarrow> nat) \<Rightarrow> addr \<Rightarrow> nat \<Rightarrow> memory \<times> nat \<Rightarrow> addr \<times> memory \<times> nat" where
  "rand_string rnd str sz s =
     (if sz \<noteq> 0 then
        (case rand_string_loop rnd str (sz - 1) 0 s of
           (mem, k) \<Rightarrow> (str, mem(str + (sz - 1) := 0), k))
      else (str, fst s, snd s))"

subsection \<open>The write of the input (lines 54 to 56)\<close>

text \<open>
  \<open>rand_string(shm_array + sizeof(size_t), len); memcpy(shm_array, &len, sizeof(size_t))\<close>,
  for the local variable \<open>len\<close> (a \<open>size_t\<close>, 20 in the driver). There is no test of
  \<open>len\<close> against the size of the region, and no error result.
\<close>

definition write_input :: "(nat \<Rightarrow> nat) \<Rightarrow> 64 word \<Rightarrow> memory \<times> nat \<Rightarrow> memory \<times> nat" where
  "write_input rnd len s =
     (case rand_string rnd header_size (unat len) s of
        (p, mem, k) \<Rightarrow> (memcpy mem 0 (le_bytes (unat len) header_size), k))"

text \<open>
  The same two stores for a payload \<open>b\<close> that is given instead of generated: the
  payload bytes go where \<open>rand_string\<close> writes (offset \<open>sizeof(size_t)\<close>), then
  \<open>memcpy\<close> stores their number in the length field. The number is a \<open>size_t\<close>, so
  it is stored modulo \<open>2^64\<close>.
\<close>

definition shm_write :: "byte list \<Rightarrow> memory \<Rightarrow> memory" where
  "shm_write b shm =
     memcpy (memcpy shm header_size b) 0 (le_bytes (length b mod 2 ^ 64) header_size)"

text \<open>The bytes \<open>rand_string\<close> generates for a size \<open>sz\<close>, from the \<open>k\<close>-th call on.\<close>

definition rand_payload :: "(nat \<Rightarrow> nat) \<Rightarrow> nat \<Rightarrow> nat \<Rightarrow> byte list" where
  "rand_payload rnd k sz =
     (if sz = 0 then []
      else map (\<lambda>n. charset ! (rnd (k + n) mod length charset)) [0..<sz - 1] @ [0])"

subsection \<open>The channel operations as the specification describes them\<close>

datatype channel_error = CapacityExceeded | ProtocolFault

text \<open>
  Modelled from the spec: \<open>read() -> bytes\<close> of the SharedChannel. The driver has no
  function that reads a payload by its length field (it only compares the region with
  \<open>strcmp\<close>), so this follows section 4.1: it "reads the header, fails with
  ProtocolFault if the header exceeds capacity, otherwise returns exactly that many
  payload bytes".
\<close>

definition sc_read :: "nat \<Rightarrow> memory \<Rightarrow> channel_error + byte list" where
  "sc_read capacity shm =
     (let n = length_field shm
      in if n > capacity then Inl ProtocolFault else Inr (load_bytes shm header_size n))"


subsection \<open>strcmp against a string literal\<close>

text \<open>
  \<open>strcmp(s, lit)\<close> where \<open>s\<close> points into the store and \<open>lit\<close> is a string
  literal, given by its characters (its terminating zero is the end of the list). The
  bytes are compared as \<open>unsigned char\<close> until they differ or both strings end; the
  literal is finite, so the comparison always stops. Only the sign of the result is
  fixed by C; the difference of the two bytes is returned here.
\<close>

fun strcmp :: "memory \<Rightarrow> addr \<Rightarrow> byte list \<Rightarrow> int" where
  "strcmp mem s [] = int (unat (mem s))"
| "strcmp mem s (c # cs) =
     (if mem s \<noteq> c then int (unat (mem s)) - int (unat c)
      else if c = 0 then 0
      else strcmp mem (Suc s) cs)"

text \<open>The literal \<open>"Fail"\<close>.\<close>

definition fail_marker :: "byte list" where
  "fail_marker = map byte_of_char ''Fail''"

subsection \<open>The loop of main (lines 51 to 68)\<close>

text \<open>
  The argument of \<open>confuse_create_dio_shared_mem\<close> (line 35): the size of the region.
\<close>

definition shm_capacity :: nat where
  "shm_capacity = 16 * 1024 * 1024"

text \<open>
  The functions of the confuse library, the C library's \<open>rand\<close> and the clock are
  not part of the program; they are parameters. \<open>confuse_run\<close> resumes the guest,
  which shares the region with the driver, so it returns the region as the guest left
  it. \<open>confuse_create_dio_shared_mem\<close> gives the initial contents of the region, or
  \<open>None\<close> for a null pointer. \<open>confuse_init\<close> gives its return value and the
  handle it stores through its third argument. \<open>clock_gettime k\<close> is the time the
  \<open>k\<close>-th call reads.
\<close>

record timespec =
  tv_sec :: int
  tv_nsec :: int

record 'vm externals =
  rand :: "nat \<Rightarrow> nat"
  confuse_create_dio_shared_mem :: "nat \<Rightarrow> memory option"
  confuse_init :: "string \<Rightarrow> string \<Rightarrow> int \<times> 'vm"
  confuse_reset :: "'vm \<Rightarrow> 'vm"
  confuse_run :: "'vm \<Rightarrow> memory \<Rightarrow> 'vm \<times> memory"
  clock_gettime :: "nat \<Rightarrow> timespec"

text \<open>The steps of one iteration, in the order the loop body makes them.\<close>

datatype driver_call = Confuse_reset | Write_input | Confuse_run | Compare_output

text \<open>
  The variables of \<open>main\<close> that the loop uses, the number of \<open>rand()\<close> calls made,
  and \<open>calls\<close>, the steps taken so far in program order (a history the proofs use;
  the program has no such variable). \<open>failcnt\<close> is a C \<open>int\<close>; it is incremented
  at most 1000 times from 0 and cannot overflow.
\<close>

record 'vm driver_state =
  simics :: 'vm
  shm_array :: memory
  rand_calls :: nat
  failcnt :: int
  calls :: "driver_call list"

text \<open>\<open>confuse_reset(simics)\<close> (line 53).\<close>

definition do_reset :: "'vm externals \<Rightarrow> 'vm driver_state \<Rightarrow> 'vm driver_state" where
  "do_reset ext st =
     st\<lparr>simics := confuse_reset ext (simics st), calls := calls st @ [Confuse_reset]\<rparr>"

text \<open>\<open>size_t len = 20\<close> and the write of the input (lines 54 to 56).\<close>

definition do_inject :: "'vm externals \<Rightarrow> 'vm driver_state \<Rightarrow> 'vm driver_state" where
  "do_inject ext st =
     (case write_input (rand ext) 20 (shm_array st, rand_calls st) of
        (mem, k) \<Rightarrow> st\<lparr>shm_array := mem, rand_calls := k, calls := calls st @ [Write_input]\<rparr>)"

text \<open>\<open>confuse_run(simics)\<close> (line 63).\<close>

definition do_run :: "'vm externals \<Rightarrow> 'vm driver_state \<Rightarrow> 'vm driver_state" where
  "do_run ext st =
     (case confuse_run ext (simics st) (shm_array st) of
        (vm, mem) \<Rightarrow> st\<lparr>simics := vm, shm_array := mem, calls := calls st @ [Confuse_run]\<rparr>)"

text \<open>\<open>if (strcmp(shm_array+sizeof(size_t), "Fail") == 0) failcnt++\<close> (line 66).\<close>

definition do_compare :: "'vm driver_state \<Rightarrow> 'vm driver_state" where
  "do_compare st =
     st\<lparr>failcnt := (if strcmp (shm_array st) header_size fail_marker = 0
                     then failcnt st + 1 else failcnt st),
        calls := calls st @ [Compare_output]\<rparr>"

definition iteration :: "'vm externals \<Rightarrow> 'vm driver_state \<Rightarrow> 'vm driver_state" where
  "iteration ext st = do_compare (do_run ext (do_inject ext (do_reset ext st)))"

text \<open>The steps that one pass through the loop body adds to the history.\<close>

definition iteration_calls :: "driver_call list" where
  "iteration_calls = [Confuse_reset, Write_input, Confuse_run, Compare_output]"

text \<open>\<open>for (int i = 0; i < 1000; i ++)\<close>, from the value \<open>i\<close> of the counter on.\<close>

function driver_loop :: "'vm externals \<Rightarrow> int \<Rightarrow> 'vm driver_state \<Rightarrow> 'vm driver_state" where
  "driver_loop ext i st =
     (if i < 1000 then driver_loop ext (i + 1) (iteration ext st) else st)"
  by pat_completeness auto
termination
  by (relation "measure (\<lambda>(ext, i, st). nat (1000 - i))") auto

declare driver_loop.simps [simp del]

text \<open>
  The rule of section 4.3 for a history of steps: the input is written only in the
  window that a reset opens and the next run closes. The flag says whether the window
  is open.
\<close>

fun inject_in_window :: "bool \<Rightarrow> driver_call list \<Rightarrow> bool" where
  "inject_in_window w [] = True"
| "inject_in_window w (Confuse_reset # cs) = inject_in_window True cs"
| "inject_in_window w (Write_input # cs) = (w \<and> inject_in_window w cs)"
| "inject_in_window w (Confuse_run # cs) = inject_in_window False cs"
| "inject_in_window w (Compare_output # cs) = inject_in_window w cs"

subsection \<open>main\<close>

text \<open>
  What \<open>main\<close> prints: a fixed text, or the last line with the duration and the
  failure count. The duration is a \<open>double\<close> in the source; here it is the real
  number the expression denotes, without rounding.
\<close>

datatype printed = Printf string | Printf_total real int

definition duration :: "timespec \<Rightarrow> timespec \<Rightarrow> real" where
  "duration start stop =
     real_of_int (tv_sec stop - tv_sec start) +
     real_of_int (tv_nsec stop - tv_nsec start) / 1000000000"

text \<open>
  \<open>main(argc, argv)\<close> with \<open>argc\<close> the length of \<open>argv\<close>: the status the process
  ends with (the argument of \<open>exit\<close>, or the value returned) and the lines printed.
\<close>

definition main :: "'vm externals \<Rightarrow> string list \<Rightarrow> int \<times> printed list" where
  "main ext argv =
     (if int (length argv) \<noteq> 2 then
        (1, [Printf (''Please provide a path to a Simics project as an argument.'' @ [CHR 0x0A])])
      else
        (case confuse_create_dio_shared_mem ext shm_capacity of
           None \<Rightarrow> (- 1, [Printf (''Could not create shm.'' @ [CHR 0x0A])])
         | Some shm \<Rightarrow>
             (case confuse_init ext (argv ! 1)
                     ''simple-example/simics-scripts/qsp-x86-uefi-app.yml'' of
                (rv, handle) \<Rightarrow>
                  if rv \<noteq> 0 then (- 1, [Printf (''Could not initialize Simics.'' @ [CHR 0x0A])])
                  else
                    (let start = clock_gettime ext 0;
                         st = driver_loop ext 0
                                \<lparr>simics = handle, shm_array = shm, rand_calls = 0,
                                 failcnt = 0, calls = []\<rparr>;
                         stop = clock_gettime ext 1
                     in (0, [Printf (''Loop start'' @ [CHR 0x0A]),
                             Printf_total (duration start stop) (failcnt st)])))))"

section \<open>The guest application (tests/rsrc/x86_64-uefi-smi/src/HelloWorld.c)\<close>

text \<open>
  \<open>EFI_STATUS\<close>: the two values the function returns, and any other code
  \<open>SaveLockBox\<close> may give.
\<close>

datatype efi_status = EFI_SUCCESS | EFI_OUT_OF_RESOURCES | EFI_OTHER nat

text \<open>
  The calls of the function, in program order. \<open>Call_HARNESS_START p n bs\<close> is the
  enter control point, reached with the buffer pointer \<open>p\<close>, the value \<open>n\<close> that
  the published size pointer holds, and the \<open>n\<close> bytes \<open>bs\<close> the buffer holds at
  that moment. \<open>Call_Print\<close> has the format string and the values printed.
\<close>

datatype print_arg = Arg_guid "byte list" | Arg_uintn nat | Arg_status efi_status

datatype guest_call =
    Call_Print string "print_arg list"
  | Call_AllocatePages nat
  | Call_SetMem addr nat byte
  | Call_HARNESS_START addr nat "byte list"
  | Call_CopyMem addr nat
  | Call_SaveLockBox "byte list" addr nat
  | Call_HARNESS_STOP
  | Call_FreePages addr nat

text \<open>
  The macros of \<open>tsffs.h\<close> and the UEFI library are not part of the file; they are
  parameters. \<open>AllocatePages\<close> gives the pointer it returns (0 for null).
  \<open>HARNESS_START p n mem\<close> gives the guest memory and the value behind the size
  pointer when the host resumes the guest. \<open>SaveLockBox\<close> gives its status.
\<close>

record guest_externals =
  EFI_SIZE_TO_PAGES :: "nat \<Rightarrow> nat"
  AllocatePages :: "nat \<Rightarrow> addr"
  HARNESS_START :: "addr \<Rightarrow> nat \<Rightarrow> memory \<Rightarrow> memory \<times> nat"
  SaveLockBox :: "byte list \<Rightarrow> addr \<Rightarrow> nat \<Rightarrow> memory \<Rightarrow> efi_status"

text \<open>\<open>SetMem(buffer, length, value)\<close> fills \<open>length\<close> bytes with \<open>value\<close>.\<close>

definition SetMem :: "memory \<Rightarrow> addr \<Rightarrow> nat \<Rightarrow> byte \<Rightarrow> memory" where
  "SetMem mem buffer n v = memcpy mem buffer (replicate n v)"

text \<open>
  \<open>HelloWorldDxeInitialize\<close>: the status returned, the guest memory afterwards and the
  calls made. \<open>sizeof(lockbox_guid)\<close> is 16.
\<close>

definition HelloWorldDxeInitialize ::
  "guest_externals \<Rightarrow> memory \<Rightarrow> efi_status \<times> memory \<times> guest_call list" where
  "HelloWorldDxeInitialize ext mem =
     (let input_max_size = 64;
          input_size = input_max_size;
          pages = EFI_SIZE_TO_PAGES ext input_max_size;
          input = AllocatePages ext pages;
          tr1 = [Call_Print ''Initializing driver...'' [], Call_AllocatePages pages]
      in if input = 0 then (EFI_OUT_OF_RESOURCES, mem, tr1)
         else
           (let mem1 = SetMem mem input input_max_size 0x44;
                tr2 = tr1 @ [Call_SetMem input input_max_size 0x44,
                             Call_HARNESS_START input input_size
                               (load_bytes mem1 input input_size)]
            in case HARNESS_START ext input input_size mem1 of
                 (mem2, input_size2) \<Rightarrow>
                   (let lockbox_guid = load_bytes mem2 input 16;
                        Status = SaveLockBox ext lockbox_guid input input_size2 mem2;
                        tr3 = tr2 @
                          [Call_CopyMem input 16,
                           Call_Print (''Saving for GUID %g with input length %d'' @ [CHR 0x0A])
                             [Arg_guid lockbox_guid, Arg_uintn input_size2],
                           Call_SaveLockBox lockbox_guid input input_size2,
                           Call_Print (''Got status from save: %d'' @ [CHR 0x0A])
                             [Arg_status Status],
                           Call_HARNESS_STOP];
                        tr4 = (if input \<noteq> 0 then tr3 @ [Call_FreePages input pages] else tr3)
                    in (EFI_SUCCESS, mem2, tr4 @ [Call_Print ''Done...'' []]))))"

text \<open>The control points among the calls: enter is HARNESS_START, exit is HARNESS_STOP.\<close>

datatype control_point = Enter | Exit

fun control_points :: "guest_call list \<Rightarrow> control_point list" where
  "control_points [] = []"
| "control_points (Call_HARNESS_START p n bs # cs) = Enter # control_points cs"
| "control_points (Call_HARNESS_STOP # cs) = Exit # control_points cs"
| "control_points (c # cs) = control_points cs"

section \<open>Sample data\<close>

text \<open>
  Concrete parameters for the worked instances: a \<open>rand()\<close> that counts in sevens, a
  region that starts zeroed, a library whose calls succeed, a guest that applies
  \<open>guest\<close> to the region when it is run, and a clock that advances 2.5 seconds
  between its two readings.
\<close>

definition sample_externals :: "(memory \<Rightarrow> memory) \<Rightarrow> unit externals" where
  "sample_externals guest =
     \<lparr>rand = (\<lambda>k. 7 * k),
      confuse_create_dio_shared_mem = (\<lambda>n. Some (\<lambda>a. 0)),
      confuse_init = (\<lambda>project config. (0, ())),
      confuse_reset = (\<lambda>vm. vm),
      confuse_run = (\<lambda>vm shm. (vm, guest shm)),
      clock_gettime = (\<lambda>k. \<lparr>tv_sec = 100 + 2 * int k, tv_nsec = 500000000 * int k\<rparr>)\<rparr>"

definition sample_state :: "unit driver_state" where
  "sample_state = \<lparr>simics = (), shm_array = (\<lambda>a. 0), rand_calls = 0, failcnt = 0, calls = []\<rparr>"

text \<open>
  A firmware whose \<open>AllocatePages\<close> returns the pointer \<open>p\<close>, with a host that
  puts three bytes into the buffer at the enter control point.
\<close>

definition sample_guest :: "addr \<Rightarrow> guest_externals" where
  "sample_guest p =
     \<lparr>EFI_SIZE_TO_PAGES = (\<lambda>n. (n + 4095) div 4096),
      AllocatePages = (\<lambda>pages. p),
      HARNESS_START = (\<lambda>buffer n mem. (memcpy mem buffer [1, 2, 3], 3)),
      SaveLockBox = (\<lambda>guid buffer n mem. EFI_SUCCESS)\<rparr>"

section \<open>Properties of the stores\<close>

lemma length_le_bytes: "length (le_bytes n k) = k"
  by (induction k arbitrary: n) auto

lemma le_nat_le_bytes: "le_nat (le_bytes n k) = n mod 256 ^ k"
proof (induction k arbitrary: n)
  case 0
  then show ?case by simp
next
  case (Suc k)
  have "unat (of_nat (n mod 256) :: byte) = n mod 256"
    by (simp add: unat_of_nat)
  then show ?case
    using Suc.IH [of "n div 256"] by (simp add: mod_mult2_eq)
qed

lemma memcpy_apply:
  "memcpy mem dst bs a = (if dst \<le> a \<and> a < dst + length bs then bs ! (a - dst) else mem a)"
proof (induction bs arbitrary: mem dst)
  case Nil
  then show ?case by auto
next
  case (Cons b bs)
  have "memcpy (mem(dst := b)) (Suc dst) bs a =
          (if Suc dst \<le> a \<and> a < Suc dst + length bs then bs ! (a - Suc dst) else (mem(dst := b)) a)"
    by (rule Cons.IH)
  then show ?case by (auto simp: nth_Cons' Suc_diff_le)
qed

lemma load_bytes_memcpy: "load_bytes (memcpy mem a bs) a (length bs) = bs"
  by (rule nth_equalityI) (simp_all add: load_bytes_def memcpy_apply)

lemma load_bytes_length: "length (load_bytes mem a n) = n"
  by (simp add: load_bytes_def)

lemma rand_string_loop_count:
  "snd (rand_string_loop rnd str sz n (mem, k)) = k + (sz - n)"
proof (induction rnd str sz n "(mem, k)" arbitrary: mem k rule: rand_string_loop.induct)
  case (1 rnd str sz n mem k)
  show ?case
  proof (cases "n < sz")
    case True
    then show ?thesis
      using "1" [OF True refl] by (simp add: rand_string_loop.simps [of _ _ _ n] Let_def)
  next
    case False
    then show ?thesis by (simp add: rand_string_loop.simps [of _ _ _ n])
  qed
qed

lemma rand_string_loop_apply:
  "fst (rand_string_loop rnd str sz n (mem, k)) a =
     (if str + n \<le> a \<and> a < str + sz
      then charset ! (rnd (k + (a - (str + n))) mod length charset) else mem a)"
proof (induction rnd str sz n "(mem, k)" arbitrary: mem k rule: rand_string_loop.induct)
  case (1 rnd str sz n mem k)
  show ?case
  proof (cases "n < sz")
    case True
    show ?thesis
    proof (cases "a = str + n")
      case eq: True
      then show ?thesis
        using True "1" [OF True refl] by (simp add: rand_string_loop.simps [of _ _ _ n] Let_def)
    next
      case neq: False
      have "str + (n + 1) \<le> a \<Longrightarrow> k + 1 + (a - (str + (n + 1))) = k + (a - (str + n))"
        by arith
      then show ?thesis
        using True neq "1" [OF True refl]
        by (auto simp: rand_string_loop.simps [of _ _ _ n] Let_def)
    qed
  next
    case False
    then show ?thesis by (auto simp: rand_string_loop.simps [of _ _ _ n])
  qed
qed

lemma length_charset: "length charset = 69"
  by (simp add: charset_def)

lemma rand_string_eq:
  "rand_string rnd str sz (mem, k) =
     (str,
      (if sz = 0 then mem
       else (fst (rand_string_loop rnd str (sz - 1) 0 (mem, k)))(str + (sz - 1) := 0)),
      k + (sz - 1))"
proof (cases "sz = 0")
  case True
  then show ?thesis by (simp add: rand_string_def)
next
  case False
  obtain m j where mj: "rand_string_loop rnd str (sz - 1) 0 (mem, k) = (m, j)"
    by (cases "rand_string_loop rnd str (sz - 1) 0 (mem, k)")
  have "j = k + (sz - 1)"
    using rand_string_loop_count [of rnd str "sz - 1" 0 mem k] mj by simp
  with False mj show ?thesis by (simp add: rand_string_def)
qed

lemma length_field_memcpy:
  "length_field (memcpy mem 0 (le_bytes n header_size)) = n mod 2 ^ 64"
proof -
  have "load_bytes (memcpy mem 0 (le_bytes n header_size)) 0 header_size = le_bytes n header_size"
    using load_bytes_memcpy [of mem 0 "le_bytes n header_size"]
    by (simp add: length_le_bytes)
  then show ?thesis
    by (simp add: length_field_def le_nat_le_bytes header_size_def)
qed

lemma shm_write_apply:
  "shm_write b shm a =
     (if a < header_size then le_bytes (length b mod 2 ^ 64) header_size ! a
      else if a < header_size + length b then b ! (a - header_size)
      else shm a)"
  by (simp add: shm_write_def memcpy_apply length_le_bytes)

lemma length_field_shm_write: "length_field (shm_write b shm) = length b mod 2 ^ 64"
  by (simp add: shm_write_def length_field_memcpy)

lemma load_payload_shm_write: "load_bytes (shm_write b shm) header_size (length b) = b"
  by (rule nth_equalityI) (simp_all add: load_bytes_def shm_write_apply)

lemma length_rand_payload: "length (rand_payload rnd k sz) = sz"
  by (simp add: rand_payload_def)

lemma write_input_apply:
  "fst (write_input rnd len (shm, k)) a =
     (if a < header_size then le_bytes (unat len) header_size ! a
      else if a < header_size + unat len then rand_payload rnd k (unat len) ! (a - header_size)
      else shm a)"
proof -
  define L where "L = fst (rand_string_loop rnd header_size (unat len - 1) 0 (shm, k))"
  have L: "L x = (if header_size \<le> x \<and> x < header_size + (unat len - 1)
                  then charset ! (rnd (k + (x - header_size)) mod length charset) else shm x)" for x
    unfolding L_def by (simp add: rand_string_loop_apply)
  have w: "fst (write_input rnd len (shm, k)) =
      memcpy (if unat len = 0 then shm else L(header_size + (unat len - 1) := 0)) 0
        (le_bytes (unat len) header_size)"
    by (simp add: write_input_def rand_string_eq L_def)
  show ?thesis
  proof (cases "a < header_size")
    case True
    then show ?thesis by (simp add: w memcpy_apply length_le_bytes)
  next
    case False
    note hi = this
    show ?thesis
    proof (cases "unat len = 0")
      case True
      with hi show ?thesis by (simp add: w memcpy_apply length_le_bytes)
    next
      case False
      then have pos: "0 < unat len" by simp
      consider (body) "a < header_size + (unat len - 1)"
        | (nul) "a = header_size + (unat len - 1)"
        | (out) "header_size + unat len \<le> a"
        using pos by linarith
      then show ?thesis
      proof cases
        case body
        with hi pos have "a - header_size < unat len - 1" by linarith
        then have "rand_payload rnd k (unat len) ! (a - header_size) =
            charset ! (rnd (k + (a - header_size)) mod length charset)"
          using pos by (simp add: rand_payload_def nth_append)
        moreover have "fst (write_input rnd len (shm, k)) a = L a"
          using hi body pos by (simp add: w memcpy_apply length_le_bytes)
        moreover from body pos have "a < header_size + unat len" by linarith
        ultimately show ?thesis using hi body by (simp add: L)
      next
        case nul
        have "rand_payload rnd k (unat len) ! (unat len - 1) = 0"
          using pos by (simp add: rand_payload_def nth_append)
        moreover have "fst (write_input rnd len (shm, k)) a = 0"
          using hi nul pos by (simp add: w memcpy_apply length_le_bytes)
        ultimately show ?thesis using hi nul pos by simp
      next
        case out
        with pos have "a \<noteq> header_size + (unat len - 1)" by linarith
        with out have "fst (write_input rnd len (shm, k)) a = L a"
          using hi pos by (simp add: w memcpy_apply length_le_bytes)
        with out hi show ?thesis by (auto simp: L)
      qed
    qed
  qed
qed

lemma write_input_shm_write:
  "fst (write_input rnd len (shm, k)) = shm_write (rand_payload rnd k (unat len)) shm"
proof
  fix a
  have "unat len < 2 ^ LENGTH(64)"
    by (rule unsigned_less)
  then have "unat len mod 2 ^ 64 = unat len"
    by simp
  then show "fst (write_input rnd len (shm, k)) a = shm_write (rand_payload rnd k (unat len)) shm a"
    by (simp add: write_input_apply shm_write_apply length_rand_payload)
qed

lemma length_field_write_input:
  "length_field (fst (write_input rnd len (shm, k))) = unat len"
proof -
  have "unat len < 2 ^ LENGTH(64)"
    by (rule unsigned_less)
  then show ?thesis
    by (simp add: write_input_shm_write length_field_shm_write length_rand_payload)
qed

lemma upt8: "[0..<8] = [0, 1, 2, 3, 4, 5, 6, 7]"
  by (simp add: upt_rec)

lemma byte_diff_zero: "int (unat (x :: byte)) - int (unat (c :: byte)) = 0 \<longleftrightarrow> x = c"
  by (simp add: word_uint_eq_iff)

lemma load_bytes_Suc: "load_bytes mem s (Suc n) = mem s # load_bytes mem (Suc s) n"
proof -
  have "[0..<Suc n] = 0 # map Suc [0..<n]"
    by (simp add: upt_conv_Cons map_Suc_upt del: upt_Suc)
  then show ?thesis
    by (simp add: load_bytes_def comp_def del: upt_Suc)
qed

lemma strcmp_zero_iff:
  "0 \<notin> set lit \<Longrightarrow> strcmp mem s lit = 0 \<longleftrightarrow> load_bytes mem s (length lit + 1) = lit @ [0]"
proof (induction lit arbitrary: s)
  case Nil
  then show ?case
    by (simp add: load_bytes_Suc load_bytes_def word_uint_eq_iff)
next
  case (Cons c cs)
  from Cons.prems have c: "c \<noteq> 0" and cs: "0 \<notin> set cs"
    by auto
  show ?case
  proof (cases "mem s = c")
    case True
    with c show ?thesis
      using Cons.IH [OF cs, of "Suc s"] by (simp add: load_bytes_Suc)
  next
    case False
    then have "int (unat (mem s)) - int (unat c) \<noteq> 0"
      by (simp only: byte_diff_zero not_False_eq_True)
    with False show ?thesis
      by (simp add: load_bytes_Suc)
  qed
qed

lemma fail_marker_bytes: "fail_marker = [70, 97, 105, 108]"
  by (simp add: fail_marker_def byte_of_char_def)

lemma strcmp_fail_marker:
  "strcmp mem header_size fail_marker = 0 \<longleftrightarrow>
     load_bytes mem header_size 5 = fail_marker @ [0]"
proof -
  have nz: "0 \<notin> set fail_marker" and len: "length fail_marker + 1 = 5"
    by (simp_all add: fail_marker_bytes)
  show ?thesis
    using strcmp_zero_iff [OF nz, of mem header_size] by (simp only: len)
qed



section \<open>Properties of the driver loop\<close>

lemma calls_do_reset: "calls (do_reset ext st) = calls st @ [Confuse_reset]"
  by (simp add: do_reset_def)

lemma calls_do_inject: "calls (do_inject ext st) = calls st @ [Write_input]"
  by (simp add: do_inject_def split: prod.splits)

lemma calls_do_run: "calls (do_run ext st) = calls st @ [Confuse_run]"
  by (simp add: do_run_def split: prod.splits)

lemma calls_do_compare: "calls (do_compare st) = calls st @ [Compare_output]"
  by (simp add: do_compare_def)

lemma calls_iteration: "calls (iteration ext st) = calls st @ iteration_calls"
  by (simp add: iteration_def iteration_calls_def calls_do_reset calls_do_inject calls_do_run
      calls_do_compare)

lemma calls_driver_loop:
  "calls (driver_loop ext i st) = calls st @ concat (replicate (nat (1000 - i)) iteration_calls)"
proof (induction ext i st rule: driver_loop.induct)
  case (1 ext i st)
  show ?case
  proof (cases "i < 1000")
    case True
    then have "nat (1000 - i) = Suc (nat (1000 - (i + 1)))"
      by simp
    then show ?thesis
      using True "1" [OF True]
      by (simp add: driver_loop.simps [of ext i] calls_iteration)
  next
    case False
    then show ?thesis
      by (simp add: driver_loop.simps [of ext i])
  qed
qed

lemma inject_in_window_iterations:
  "inject_in_window w (concat (replicate n iteration_calls))"
  by (induction n arbitrary: w) (simp_all add: iteration_calls_def)

lemma failcnt_iteration:
  "failcnt (iteration ext st) =
     (if load_bytes (shm_array (do_run ext (do_inject ext (do_reset ext st)))) header_size 5
           = fail_marker @ [0]
      then failcnt st + 1 else failcnt st)"
proof -
  have "failcnt (do_run ext (do_inject ext (do_reset ext st))) = failcnt st"
    by (simp add: do_run_def do_inject_def do_reset_def split: prod.splits)
  then show ?thesis
    by (simp add: iteration_def do_compare_def strcmp_fail_marker)
qed

lemma shm_array_iteration:
  "shm_array (iteration ext st) = shm_array (do_run ext (do_inject ext (do_reset ext st)))"
  by (simp add: iteration_def do_compare_def)

lemma failcnt_driver_loop:
  "failcnt st \<le> failcnt (driver_loop ext i st) \<and>
   failcnt (driver_loop ext i st) \<le> failcnt st + int (nat (1000 - i))"
proof (induction ext i st rule: driver_loop.induct)
  case (1 ext i st)
  show ?case
  proof (cases "i < 1000")
    case True
    have "failcnt st \<le> failcnt (iteration ext st) \<and> failcnt (iteration ext st) \<le> failcnt st + 1"
      by (simp add: failcnt_iteration)
    with True "1" [OF True] show ?thesis
      by (simp add: driver_loop.simps [of ext i])
  next
    case False
    then show ?thesis
      by (simp add: driver_loop.simps [of ext i])
  qed
qed

lemma shm_array_sample_iteration:
  "shm_array (iteration (sample_externals guest) st) =
     guest (fst (write_input (\<lambda>k. 7 * k) 20 (shm_array st, rand_calls st)))"
  by (simp add: iteration_def do_compare_def do_run_def do_inject_def do_reset_def
      sample_externals_def split: prod.splits)

lemma shm_array_do_inject:
  "shm_array (do_inject ext (do_reset ext st)) =
     fst (write_input (rand ext) 20 (shm_array st, rand_calls st))"
  by (simp add: do_inject_def do_reset_def split: prod.splits)

lemma length_field_do_inject:
  "length_field (shm_array (do_inject ext (do_reset ext st))) = 20"
  by (simp add: shm_array_do_inject length_field_write_input)

lemma shm_array_sample_run:
  "shm_array (do_run (sample_externals guest) st) = guest (shm_array st)"
  by (simp add: do_run_def sample_externals_def)

lemma le_bytes_20: "le_bytes 20 header_size = [20, 0, 0, 0, 0, 0, 0, 0]"
proof -
  have h: "header_size = Suc (Suc (Suc (Suc (Suc (Suc (Suc (Suc 0)))))))"
    by (simp add: header_size_def)
  show ?thesis
    unfolding h by simp
qed

lemma driver_loop_funpow:
  "driver_loop ext i st = (iteration ext ^^ nat (1000 - i)) st"
proof (induction ext i st rule: driver_loop.induct)
  case (1 ext i st)
  show ?case
  proof (cases "i < 1000")
    case True
    then have "nat (1000 - i) = Suc (nat (1000 - (i + 1)))"
      by simp
    then show ?thesis
      using True "1" [OF True]
      by (simp add: driver_loop.simps [of ext i] funpow_swap1)
  next
    case False
    then show ?thesis
      by (simp add: driver_loop.simps [of ext i])
  qed
qed

lemma iteration_eq:
  "iteration ext st =
     (let vm1 = confuse_reset ext (simics st);
          w = write_input (rand ext) 20 (shm_array st, rand_calls st);
          r = confuse_run ext vm1 (fst w)
      in st\<lparr>simics := fst r, shm_array := snd r, rand_calls := snd w,
            failcnt := (if strcmp (snd r) header_size fail_marker = 0
                        then failcnt st + 1 else failcnt st),
            calls := calls st @ [Confuse_reset, Write_input, Confuse_run, Compare_output]\<rparr>)"
  by (simp add: iteration_def do_compare_def do_run_def do_inject_def do_reset_def Let_def
      split: prod.splits)

section \<open>Properties of the guest application\<close>

lemma load_bytes_SetMem: "load_bytes (SetMem mem p n v) p n = replicate n v"
  using load_bytes_memcpy [of mem p "replicate n v"] by (simp add: SetMem_def)

lemma HelloWorld_null:
  "AllocatePages ext (EFI_SIZE_TO_PAGES ext 64) = 0 \<Longrightarrow>
   HelloWorldDxeInitialize ext mem =
     (EFI_OUT_OF_RESOURCES, mem,
      [Call_Print ''Initializing driver...'' [], Call_AllocatePages (EFI_SIZE_TO_PAGES ext 64)])"
  by (simp add: HelloWorldDxeInitialize_def Let_def)

lemma HelloWorld_calls:
  assumes "AllocatePages ext (EFI_SIZE_TO_PAGES ext 64) = input" and "input \<noteq> 0"
    and "HARNESS_START ext input 64 (SetMem mem input 64 0x44) = (mem2, input_size2)"
  shows "HelloWorldDxeInitialize ext mem =
     (EFI_SUCCESS, mem2,
      [Call_Print ''Initializing driver...'' [], Call_AllocatePages (EFI_SIZE_TO_PAGES ext 64),
       Call_SetMem input 64 0x44,
       Call_HARNESS_START input 64 (replicate 64 0x44),
       Call_CopyMem input 16,
       Call_Print (''Saving for GUID %g with input length %d'' @ [CHR 0x0A])
         [Arg_guid (load_bytes mem2 input 16), Arg_uintn input_size2],
       Call_SaveLockBox (load_bytes mem2 input 16) input input_size2,
       Call_Print (''Got status from save: %d'' @ [CHR 0x0A])
         [Arg_status (SaveLockBox ext (load_bytes mem2 input 16) input input_size2 mem2)],
       Call_HARNESS_STOP,
       Call_FreePages input (EFI_SIZE_TO_PAGES ext 64),
       Call_Print ''Done...'' []])"
  using assms by (simp add: HelloWorldDxeInitialize_def Let_def load_bytes_SetMem)

lemma SetMem_apply:
  "SetMem mem p n v a = (if p \<le> a \<and> a < p + n then v else mem a)"
  by (auto simp: SetMem_def memcpy_apply)

section \<open>The claims\<close>

text \<open>
  C9. For every buffer \<open>str\<close> and every size greater than 0, \<open>rand_string(str, size)\<close>
  writes exactly \<open>size - 1\<close> characters, each one of the 69 characters of the charset,
  into \<open>str[0..size-2]\<close>, writes a zero into \<open>str[size-1]\<close> and returns \<open>str\<close>;
  nothing outside \<open>str[0..size-1]\<close> changes and \<open>rand()\<close> is called \<open>size - 1\<close>
  times. For size 0 it returns \<open>str\<close> and the buffer is not modified at all.
\<close>

theorem rand_string_spec:
  assumes "rand_string rnd str sz (mem, k) = (p, mem', k')"
  shows "p = str \<and> length charset = 69 \<and>
         (sz = 0 \<longrightarrow> mem' = mem \<and> k' = k) \<and>
         (0 < sz \<longrightarrow>
            (\<forall>n < sz - 1. mem' (str + n) = charset ! (rnd (k + n) mod 69) \<and>
                           mem' (str + n) \<in> set charset) \<and>
            mem' (str + (sz - 1)) = 0 \<and>
            (\<forall>a. a < str \<or> str + sz \<le> a \<longrightarrow> mem' a = mem a) \<and>
            k' = k + (sz - 1))"
proof -
  define L where "L = fst (rand_string_loop rnd str (sz - 1) 0 (mem, k))"
  from assms have "(str, (if sz = 0 then mem else L(str + (sz - 1) := 0)), k + (sz - 1))
      = (p, mem', k')"
    by (simp only: rand_string_eq L_def)
  then have p: "p = str" and k': "k' = k + (sz - 1)"
    and m': "mem' = (if sz = 0 then mem else L(str + (sz - 1) := 0))"
    unfolding prod.inject by blast+
  have L: "L a = (if str \<le> a \<and> a < str + (sz - 1)
                  then charset ! (rnd (k + (a - str)) mod 69) else mem a)" for a
    unfolding L_def by (simp add: rand_string_loop_apply length_charset)
  have zero: "sz = 0 \<longrightarrow> mem' = mem \<and> k' = k"
    using m' k' by simp
  have chars: "mem' (str + n) = charset ! (rnd (k + n) mod 69) \<and> mem' (str + n) \<in> set charset"
    if "0 < sz" "n < sz - 1" for n
  proof -
    from that have "str + n \<noteq> str + (sz - 1)" by arith
    with that have "mem' (str + n) = L (str + n)"
      by (simp add: m')
    also from that have "\<dots> = charset ! (rnd (k + n) mod 69)"
      by (auto simp: L)
    finally have "mem' (str + n) = charset ! (rnd (k + n) mod 69)" .
    moreover have "charset ! (rnd (k + n) mod 69) \<in> set charset"
      by (rule nth_mem) (simp add: length_charset)
    ultimately show ?thesis by simp
  qed
  have nul: "mem' (str + (sz - 1)) = 0" if "0 < sz"
    using that by (simp add: m')
  have frame: "mem' a = mem a" if "0 < sz" "a < str \<or> str + sz \<le> a" for a
  proof -
    from that have "a \<noteq> str + (sz - 1)" by arith
    with that have "mem' a = L a" by (simp add: m')
    also from that have "\<dots> = mem a" by (auto simp: L)
    finally show ?thesis .
  qed
  show ?thesis
    using p k' zero chars nul frame length_charset by blast
qed

theorem rand_string_spec_witness:
  "\<exists>p mem' k'. rand_string (\<lambda>k. 7 * k) 3 4 (\<lambda>a. 170, 0) = (p, mem', k') \<and>
     p = 3 \<and> mem' 3 = 97 \<and> mem' 4 = 104 \<and> mem' 5 = 111 \<and> mem' 6 = 0 \<and>
     mem' 2 = 170 \<and> mem' 7 = 170 \<and> k' = 3"
proof -
  obtain p mem' k' where r: "rand_string (\<lambda>k. 7 * k) 3 4 (\<lambda>a. 170, 0) = (p, mem', k')"
    by (cases "rand_string (\<lambda>k. 7 * k) 3 4 (\<lambda>a. 170, 0)")
  have c: "charset ! 0 = 97" "charset ! 7 = 104" "charset ! 14 = 111"
    by (simp_all add: charset_def byte_of_char_def)
  from rand_string_spec [OF r]
  have p: "p = 3" and k': "k' = 3" and nul: "mem' 6 = 0"
    and chars: "\<forall>n<3. mem' (3 + n) = charset ! (7 * n)"
    and frame: "\<forall>a. a < 3 \<or> 7 \<le> a \<longrightarrow> mem' a = 170"
    by simp_all
  have "mem' 3 = 97" "mem' 4 = 104" "mem' 5 = 111"
    using chars [rule_format, of 0] chars [rule_format, of 1] chars [rule_format, of 2] c
    by simp_all
  moreover have "mem' 2 = 170" "mem' 7 = 170"
    using frame [rule_format, of 2] frame [rule_format, of 7] by simp_all
  ultimately show ?thesis using r p k' nul by simp
qed

text \<open>
  C1. For every payload \<open>b\<close> with \<open>len(b) \<le> capacity - header_size\<close>, the write
  of \<open>b\<close> (its bytes from offset \<open>sizeof(size_t)\<close> on, its length in the first
  \<open>sizeof(size_t)\<close> bytes) followed by a read returns exactly \<open>b\<close>. The capacity is
  a \<open>size_t\<close>. The second part is the driver's own write (line 54 to 56): read back
  from its region of \<open>16*1024*1024\<close> bytes, it gives the 20 bytes \<open>rand_string\<close>
  generated.
\<close>

theorem write_read_roundtrip:
  fixes capacity :: "64 word"
  shows "(int (length b) \<le> int (unat capacity) - int header_size \<longrightarrow>
            sc_read (unat capacity) (shm_write b shm) = Inr b) \<and>
         sc_read shm_capacity (fst (write_input rnd 20 (shm, k))) = Inr (rand_payload rnd k 20)"
proof -
  have general: "sc_read (unat c) (shm_write p m) = Inr p"
    if "int (length p) \<le> int (unat c) - int header_size" for c :: "64 word" and p m
  proof -
    have "unat c < 2 ^ LENGTH(64)"
      by (rule unsigned_less)
    then have "unat c < 2 ^ 64"
      by simp
    with that have small: "length p < 2 ^ 64" and fits: "length p \<le> unat c"
      by linarith+
    from small have "length_field (shm_write p m) = length p"
      by (simp add: length_field_shm_write)
    with fits show ?thesis
      by (simp add: sc_read_def load_payload_shm_write)
  qed
  have cap: "unat (16777216 :: 64 word) = shm_capacity"
    by (simp add: shm_capacity_def)
  have "int (length (rand_payload rnd k 20)) \<le> int (unat (16777216 :: 64 word)) - int header_size"
    by (simp add: length_rand_payload header_size_def)
  from general [OF this]
  have "sc_read shm_capacity (shm_write (rand_payload rnd k 20) shm) = Inr (rand_payload rnd k 20)"
    by (simp only: cap)
  moreover have "fst (write_input rnd 20 (shm, k)) = shm_write (rand_payload rnd k 20) shm"
    using write_input_shm_write [of rnd 20 shm k] by simp
  ultimately show ?thesis
    using general by simp
qed

theorem write_read_roundtrip_witness:
  "int (length [1, 2, 3 :: byte]) \<le> int (unat (16777216 :: 64 word)) - int header_size \<and>
   sc_read (unat (16777216 :: 64 word)) (shm_write [1, 2, 3] (\<lambda>a. 170)) = Inr [1, 2, 3]"
  using write_read_roundtrip [of "[1, 2, 3]" 16777216 "\<lambda>a. 170"]
  by (simp add: header_size_def)

text \<open>
  C7. A write of a payload \<open>b\<close> modifies only the first \<open>header_size + len(b)\<close>
  bytes of the region: every byte at an offset of at least \<open>header_size + len(b)\<close>
  keeps the value it had before, for a given payload and for the driver's write with
  any \<open>len\<close>. Nothing is zero-filled.
\<close>

theorem write_frame:
  "(header_size + length b \<le> a \<longrightarrow> shm_write b shm a = shm a) \<and>
   (header_size + unat len \<le> a \<longrightarrow> fst (write_input rnd len (shm, k)) a = shm a)"
  by (simp add: shm_write_apply write_input_apply)

theorem write_frame_witness:
  "header_size + length [1, 2, 3 :: byte] \<le> 11 \<and> shm_write [1, 2, 3] (\<lambda>a. 170) 11 = 170 \<and>
   header_size + unat (20 :: 64 word) \<le> 28 \<and>
   fst (write_input (\<lambda>k. 7 * k) 20 (\<lambda>a. 170, 0)) 28 = 170"
  using write_frame [of "[1, 2, 3]" 11 "\<lambda>a. 170" 20 "\<lambda>k. 7 * k" 0]
    write_frame [of "[1, 2, 3]" 28 "\<lambda>a. 170" 20 "\<lambda>k. 7 * k" 0]
  by (simp add: header_size_def)



text \<open>
  C3. In every iteration of the driver loop the steps are, in this order: reset, write
  of the input into the region, run, comparison of the output. The guest is run on the
  handle that \<open>confuse_reset\<close> returned and on the region as the write of this
  iteration left it (the 20 generated bytes behind the length field), and the
  comparison reads the region as the run left it. The loop is 1000 such iterations,
  and in its history of steps the input is written only in the window between a reset
  and the run that follows it.
\<close>

theorem iteration_order:
  "iteration ext st =
     (let vm1 = confuse_reset ext (simics st);
          w = write_input (rand ext) 20 (shm_array st, rand_calls st);
          r = confuse_run ext vm1 (fst w)
      in st\<lparr>simics := fst r, shm_array := snd r, rand_calls := snd w,
            failcnt := (if strcmp (snd r) header_size fail_marker = 0
                        then failcnt st + 1 else failcnt st),
            calls := calls st @ [Confuse_reset, Write_input, Confuse_run, Compare_output]\<rparr>) \<and>
   fst (write_input (rand ext) 20 (shm_array st, rand_calls st)) =
     shm_write (rand_payload (rand ext) (rand_calls st) 20) (shm_array st) \<and>
   driver_loop ext 0 st = (iteration ext ^^ 1000) st \<and>
   calls (iteration ext st) =
     calls st @ [Confuse_reset, Write_input, Confuse_run, Compare_output] \<and>
   calls (driver_loop ext 0 st) =
     calls st @ concat (replicate 1000 [Confuse_reset, Write_input, Confuse_run, Compare_output]) \<and>
   inject_in_window False (calls (driver_loop ext 0 (st\<lparr>calls := []\<rparr>)))"
proof -
  have "calls (driver_loop ext 0 (st\<lparr>calls := []\<rparr>)) = concat (replicate 1000 iteration_calls)"
    by (simp add: calls_driver_loop)
  then have window: "inject_in_window False (calls (driver_loop ext 0 (st\<lparr>calls := []\<rparr>)))"
    by (simp only: inject_in_window_iterations)
  have wr: "fst (write_input (rand ext) 20 (shm_array st, rand_calls st)) =
     shm_write (rand_payload (rand ext) (rand_calls st) 20) (shm_array st)"
    using write_input_shm_write [of "rand ext" 20 "shm_array st" "rand_calls st"] by simp
  have loop: "driver_loop ext 0 st = (iteration ext ^^ 1000) st"
    using driver_loop_funpow [of ext 0 st] by simp
  have c1: "calls (iteration ext st) =
     calls st @ [Confuse_reset, Write_input, Confuse_run, Compare_output]"
    using calls_iteration [of ext st] by (simp add: iteration_calls_def)
  have c2: "calls (driver_loop ext 0 st) =
     calls st @ concat (replicate 1000 [Confuse_reset, Write_input, Confuse_run, Compare_output])"
    using calls_driver_loop [of ext 0 st] by (simp add: iteration_calls_def)
  show ?thesis
    using iteration_eq [of ext st] wr loop c1 c2 window by (simp only: simp_thms)
qed

text \<open>
  C2, as the code has it. In every iteration the failure counter is incremented if and
  only if the five bytes of the region from offset \<open>sizeof(size_t)\<close> on are
  \<open>'F', 'a', 'i', 'l', 0\<close>, as they stand after the run: the comparison is
  \<open>strcmp\<close>, which ends at the terminating zero and does not look at the length
  field.
\<close>

theorem sentinel_by_strcmp:
  "failcnt (iteration ext st) =
     (if load_bytes (shm_array (iteration ext st)) header_size 5 = fail_marker @ [0]
      then failcnt st + 1 else failcnt st) \<and>
   fail_marker @ [0] = [70, 97, 105, 108, 0]"
  by (simp add: failcnt_iteration shm_array_iteration fail_marker_bytes)

text \<open>
  C2 as stated fails in both directions. A guest that leaves the payload \<open>"Fail"\<close>
  with length 4, followed by a byte that is not zero, is not counted; a guest that
  leaves a payload of length 7 that starts with \<open>"Fail"\<close> and a zero is counted.
\<close>

theorem sentinel_counterexample:
  "sc_read shm_capacity
     (shm_array (iteration (sample_externals (\<lambda>shm. shm_write fail_marker (\<lambda>a. 65))) sample_state))
     = Inr fail_marker \<and>
   failcnt (iteration (sample_externals (\<lambda>shm. shm_write fail_marker (\<lambda>a. 65))) sample_state)
     = failcnt sample_state \<and>
   sc_read shm_capacity
     (shm_array (iteration (sample_externals (\<lambda>shm. shm_write (fail_marker @ [0, 1, 2]) (\<lambda>a. 65)))
        sample_state))
     = Inr (fail_marker @ [0, 1, 2]) \<and>
   failcnt (iteration (sample_externals (\<lambda>shm. shm_write (fail_marker @ [0, 1, 2]) (\<lambda>a. 65)))
        sample_state)
     = failcnt sample_state + 1"
proof -
  have rd: "sc_read shm_capacity (shm_write b m) = Inr b" if "length b < 10" for b m
  proof -
    from that have "length_field (shm_write b m) = length b"
      by (simp add: length_field_shm_write)
    with that show ?thesis
      by (simp add: sc_read_def load_payload_shm_write shm_capacity_def)
  qed
  have five: "load_bytes m 8 5 = [m 8, m 9, m 10, m 11, m 12]" for m
    by (simp add: load_bytes_def upt_rec)
  have a: "load_bytes (shm_write fail_marker (\<lambda>a. 65)) header_size 5 \<noteq> fail_marker @ [0]"
    by (simp add: five shm_write_apply header_size_def fail_marker_bytes)
  have b: "load_bytes (shm_write (fail_marker @ [0, 1, 2]) (\<lambda>a. 65)) header_size 5 = fail_marker @ [0]"
    by (simp add: five shm_write_apply header_size_def fail_marker_bytes)
  show ?thesis
    using a b
    by (simp add: failcnt_iteration [of "sample_externals g" for g, folded shm_array_iteration]
        shm_array_sample_iteration rd fail_marker_bytes)
qed

text \<open>
  C4, as the code has it. In every iteration, when the guest is resumed the length
  field is 20, which is at most \<open>capacity - header_size\<close> for the region of
  \<open>16*1024*1024\<close> bytes. When the driver reads the region after the run, the
  length field is what the guest left there; it is still 20 if the guest left the
  first \<open>sizeof(size_t)\<close> bytes as they were. The state \<open>st\<close> at the head of the
  loop is arbitrary, so this holds in every iteration.
\<close>

theorem length_field_at_run:
  "length_field (shm_array (do_inject ext (do_reset ext st))) = 20 \<and>
   int 20 \<le> int shm_capacity - int header_size \<and>
   (load_bytes (shm_array (do_run ext (do_inject ext (do_reset ext st)))) 0 header_size =
    load_bytes (shm_array (do_inject ext (do_reset ext st))) 0 header_size \<longrightarrow>
      length_field (shm_array (do_run ext (do_inject ext (do_reset ext st)))) = 20)"
proof -
  have "int 20 \<le> int shm_capacity - int header_size"
    by (simp add: shm_capacity_def header_size_def)
  moreover have "length_field (shm_array (do_run ext (do_inject ext (do_reset ext st)))) = 20"
    if "load_bytes (shm_array (do_run ext (do_inject ext (do_reset ext st)))) 0 header_size =
        load_bytes (shm_array (do_inject ext (do_reset ext st))) 0 header_size"
    using that length_field_do_inject [of ext st] by (simp only: length_field_def)
  ultimately show ?thesis
    using length_field_do_inject [of ext st] by blast
qed

theorem length_field_at_run_witness:
  "load_bytes
     (shm_array (do_run (sample_externals (\<lambda>shm. shm(8 := 70)))
        (do_inject (sample_externals (\<lambda>shm. shm(8 := 70)))
          (do_reset (sample_externals (\<lambda>shm. shm(8 := 70))) sample_state)))) 0 header_size =
   load_bytes
     (shm_array (do_inject (sample_externals (\<lambda>shm. shm(8 := 70)))
          (do_reset (sample_externals (\<lambda>shm. shm(8 := 70))) sample_state))) 0 header_size \<and>
   length_field (shm_array (do_run (sample_externals (\<lambda>shm. shm(8 := 70)))
        (do_inject (sample_externals (\<lambda>shm. shm(8 := 70)))
          (do_reset (sample_externals (\<lambda>shm. shm(8 := 70))) sample_state)))) = 20"
proof -
  have same: "load_bytes (m(8 := 70)) 0 header_size = load_bytes m 0 header_size" for m :: memory
    by (simp add: load_bytes_def header_size_def)
  have run: "shm_array (do_run (sample_externals (\<lambda>shm. shm(8 := 70)))
        (do_inject (sample_externals (\<lambda>shm. shm(8 := 70)))
          (do_reset (sample_externals (\<lambda>shm. shm(8 := 70))) sample_state))) =
      (shm_array (do_inject (sample_externals (\<lambda>shm. shm(8 := 70)))
          (do_reset (sample_externals (\<lambda>shm. shm(8 := 70))) sample_state)))(8 := 70)"
    by (simp only: shm_array_sample_run)
  show ?thesis
    using length_field_at_run [of "sample_externals (\<lambda>shm. shm(8 := 70))" sample_state]
    unfolding run by (simp only: same simp_thms)
qed

text \<open>
  C4 as stated fails where the driver reads: a guest that sets the byte at offset 7
  leaves a length field of \<open>20 + 2^56\<close>, more than \<open>capacity - header_size\<close>, and
  the driver compares the region all the same.
\<close>

theorem length_field_counterexample:
  "\<not> int (length_field
          (shm_array (do_run (sample_externals (\<lambda>shm. shm(7 := 1)))
             (do_inject (sample_externals (\<lambda>shm. shm(7 := 1)))
               (do_reset (sample_externals (\<lambda>shm. shm(7 := 1))) sample_state)))))
      \<le> int shm_capacity - int header_size"
proof -
  define m where "m = shm_array (do_inject (sample_externals (\<lambda>shm. shm(7 := 1)))
               (do_reset (sample_externals (\<lambda>shm. shm(7 := 1))) sample_state))"
  have m: "m a = [20, 0, 0, 0, 0, 0, 0, 0] ! a" if "a < header_size" for a
    using that unfolding m_def shm_array_do_inject
    by (simp add: write_input_apply le_bytes_20)
  have "load_bytes (m(7 := 1)) 0 header_size = [m 0, m 1, m 2, m 3, m 4, m 5, m 6, 1]"
    by (simp add: load_bytes_def header_size_def upt8)
  also have "\<dots> = [20, 0, 0, 0, 0, 0, 0, 1]"
    using m [of 0] m [of 1] m [of 2] m [of 3] m [of 4] m [of 5] m [of 6]
    by (simp add: header_size_def)
  finally have "length_field (m(7 := 1)) = 20 + 2 ^ 56"
    by (simp add: length_field_def)
  moreover have "shm_array (do_run (sample_externals (\<lambda>shm. shm(7 := 1)))
             (do_inject (sample_externals (\<lambda>shm. shm(7 := 1)))
               (do_reset (sample_externals (\<lambda>shm. shm(7 := 1))) sample_state))) = m(7 := 1)"
    by (simp only: shm_array_sample_run m_def)
  ultimately have "length_field
          (shm_array (do_run (sample_externals (\<lambda>shm. shm(7 := 1)))
             (do_inject (sample_externals (\<lambda>shm. shm(7 := 1)))
               (do_reset (sample_externals (\<lambda>shm. shm(7 := 1))) sample_state)))) = 20 + 2 ^ 56"
    by (simp only:)
  then show ?thesis
    by (simp add: shm_capacity_def header_size_def)
qed

text \<open>
  C8. The driver takes exactly one argument. With another number of arguments it ends
  with status 1; when the shared memory cannot be created, or \<open>confuse_init\<close> gives
  a value other than 0, it ends with status -1; otherwise it runs the loop, returns 0,
  and the last thing it prints is the duration between the two clock readings and the
  failure count of the loop, which is between 0 and 1000.
\<close>

theorem main_exit_codes:
  "(int (length argv) \<noteq> 2 \<longrightarrow> fst (main ext argv) = 1) \<and>
   (int (length argv) = 2 \<and> confuse_create_dio_shared_mem ext shm_capacity = None \<longrightarrow>
      fst (main ext argv) = - 1) \<and>
   (int (length argv) = 2 \<and> confuse_create_dio_shared_mem ext shm_capacity = Some shm \<and>
    fst (confuse_init ext (argv ! 1) ''simple-example/simics-scripts/qsp-x86-uefi-app.yml'') \<noteq> 0 \<longrightarrow>
      fst (main ext argv) = - 1) \<and>
   (int (length argv) = 2 \<and> confuse_create_dio_shared_mem ext shm_capacity = Some shm \<and>
    confuse_init ext (argv ! 1) ''simple-example/simics-scripts/qsp-x86-uefi-app.yml'' = (0, h) \<longrightarrow>
      main ext argv =
        (0, [Printf (''Loop start'' @ [CHR 0x0A]),
             Printf_total (duration (clock_gettime ext 0) (clock_gettime ext 1))
               (failcnt (driver_loop ext 0
                  \<lparr>simics = h, shm_array = shm, rand_calls = 0, failcnt = 0, calls = []\<rparr>))]) \<and>
      0 \<le> failcnt (driver_loop ext 0
                  \<lparr>simics = h, shm_array = shm, rand_calls = 0, failcnt = 0, calls = []\<rparr>) \<and>
      failcnt (driver_loop ext 0
                  \<lparr>simics = h, shm_array = shm, rand_calls = 0, failcnt = 0, calls = []\<rparr>) \<le> 1000)"
proof -
  have bound: "0 \<le> failcnt (driver_loop ext 0
                  \<lparr>simics = h, shm_array = shm, rand_calls = 0, failcnt = 0, calls = []\<rparr>) \<and>
      failcnt (driver_loop ext 0
                  \<lparr>simics = h, shm_array = shm, rand_calls = 0, failcnt = 0, calls = []\<rparr>) \<le> 1000"
    using failcnt_driver_loop [of "\<lparr>simics = h, shm_array = shm, rand_calls = 0, failcnt = 0, calls = []\<rparr>" ext 0]
    by simp
  show ?thesis
    using bound by (auto simp: main_def Let_def split: option.splits prod.splits)
qed

theorem main_exit_codes_witness:
  "fst (main (sample_externals (\<lambda>shm. shm)) [''testcode'']) = 1 \<and>
   fst (main ((sample_externals (\<lambda>shm. shm))\<lparr>confuse_create_dio_shared_mem := (\<lambda>n. None)\<rparr>)
          [''testcode'', ''project'']) = - 1 \<and>
   fst (main ((sample_externals (\<lambda>shm. shm))\<lparr>confuse_init := (\<lambda>p c. (1, ()))\<rparr>)
          [''testcode'', ''project'']) = - 1 \<and>
   main (sample_externals (\<lambda>shm. shm)) [''testcode'', ''project''] =
     (0, [Printf (''Loop start'' @ [CHR 0x0A]),
          Printf_total (5 / 2) (failcnt (driver_loop (sample_externals (\<lambda>shm. shm)) 0 sample_state))])"
proof -
  have d: "duration (clock_gettime (sample_externals (\<lambda>shm. shm)) 0)
             (clock_gettime (sample_externals (\<lambda>shm. shm)) 1) = 5 / 2"
    by (simp add: duration_def sample_externals_def)
  show ?thesis
    using main_exit_codes [of "[''testcode'']" "sample_externals (\<lambda>shm. shm)"]
      main_exit_codes [of "[''testcode'', ''project'']"
        "(sample_externals (\<lambda>shm. shm))\<lparr>confuse_create_dio_shared_mem := (\<lambda>n. None)\<rparr>"]
      main_exit_codes [of "[''testcode'', ''project'']"
        "(sample_externals (\<lambda>shm. shm))\<lparr>confuse_init := (\<lambda>p c. (1, ()))\<rparr>" "\<lambda>a. 0"]
      main_exit_codes [of "[''testcode'', ''project'']" "sample_externals (\<lambda>shm. shm)" "\<lambda>a. 0" "()"]
    unfolding d sample_state_def
    by (simp add: sample_externals_def)
qed

text \<open>
  C6, as the code has it. In every execution of the guest in which the allocation of
  the input buffer succeeds, enter (HARNESS_START) is reached exactly once and exit
  (HARNESS_STOP) exactly once, after enter. When the allocation fails, neither is
  reached.
\<close>

theorem control_points_paired:
  "(AllocatePages ext (EFI_SIZE_TO_PAGES ext 64) \<noteq> 0 \<longrightarrow>
      control_points (snd (snd (HelloWorldDxeInitialize ext mem))) = [Enter, Exit]) \<and>
   (AllocatePages ext (EFI_SIZE_TO_PAGES ext 64) = 0 \<longrightarrow>
      control_points (snd (snd (HelloWorldDxeInitialize ext mem))) = [])"
proof -
  obtain mem2 n2 where
    h: "HARNESS_START ext (AllocatePages ext (EFI_SIZE_TO_PAGES ext 64)) 64
          (SetMem mem (AllocatePages ext (EFI_SIZE_TO_PAGES ext 64)) 64 0x44) = (mem2, n2)"
    by (cases "HARNESS_START ext (AllocatePages ext (EFI_SIZE_TO_PAGES ext 64)) 64
          (SetMem mem (AllocatePages ext (EFI_SIZE_TO_PAGES ext 64)) 64 0x44)")
  show ?thesis
    using HelloWorld_null [of ext mem] HelloWorld_calls [OF refl _ h]
    by auto
qed

theorem control_points_paired_witness:
  "AllocatePages (sample_guest 4096) (EFI_SIZE_TO_PAGES (sample_guest 4096) 64) \<noteq> 0 \<and>
   control_points (snd (snd (HelloWorldDxeInitialize (sample_guest 4096) (\<lambda>a. 0)))) = [Enter, Exit]"
  using control_points_paired [of "sample_guest 4096" "\<lambda>a. 0"]
  by (simp add: sample_guest_def)

text \<open>
  C6 as stated fails: when \<open>AllocatePages\<close> returns a null pointer the guest reaches
  no control point at all.
\<close>

theorem control_points_counterexample:
  "control_points (snd (snd (HelloWorldDxeInitialize (sample_guest 0) (\<lambda>a. 0)))) = [] \<and>
   control_points (snd (snd (HelloWorldDxeInitialize (sample_guest 0) (\<lambda>a. 0)))) \<noteq> [Enter, Exit]"
proof -
  have "AllocatePages (sample_guest 0) (EFI_SIZE_TO_PAGES (sample_guest 0) 64) = 0"
    by (simp add: sample_guest_def)
  from HelloWorld_null [OF this] show ?thesis
    by simp
qed

text \<open>
  C10. If \<open>AllocatePages\<close> returns a null pointer, \<open>HelloWorldDxeInitialize\<close>
  returns \<open>EFI_OUT_OF_RESOURCES\<close> after the first \<open>Print\<close> and the allocation
  only: no control point is reached and the memory is unchanged. Otherwise the 64
  bytes of the buffer are set to \<open>0x44\<close> and nothing else is written, enter is
  reached on that memory right after \<open>SetMem\<close>, the function goes on with the
  memory and the size the host left at enter, and it returns \<open>EFI_SUCCESS\<close>.
\<close>

theorem allocation_failure:
  "(AllocatePages ext (EFI_SIZE_TO_PAGES ext 64) = 0 \<longrightarrow>
      HelloWorldDxeInitialize ext mem =
        (EFI_OUT_OF_RESOURCES, mem,
         [Call_Print ''Initializing driver...'' [],
          Call_AllocatePages (EFI_SIZE_TO_PAGES ext 64)])) \<and>
   (AllocatePages ext (EFI_SIZE_TO_PAGES ext 64) = input \<and> input \<noteq> 0 \<longrightarrow>
      load_bytes (SetMem mem input 64 0x44) input 64 = replicate 64 0x44 \<and>
      (\<forall>a. a < input \<or> input + 64 \<le> a \<longrightarrow> SetMem mem input 64 0x44 a = mem a) \<and>
      HelloWorldDxeInitialize ext mem =
        (EFI_SUCCESS,
         fst (HARNESS_START ext input 64 (SetMem mem input 64 0x44)),
         [Call_Print ''Initializing driver...'' [],
          Call_AllocatePages (EFI_SIZE_TO_PAGES ext 64),
          Call_SetMem input 64 0x44,
          Call_HARNESS_START input 64 (replicate 64 0x44),
          Call_CopyMem input 16,
          Call_Print (''Saving for GUID %g with input length %d'' @ [CHR 0x0A])
            [Arg_guid (load_bytes (fst (HARNESS_START ext input 64 (SetMem mem input 64 0x44)))
                         input 16),
             Arg_uintn (snd (HARNESS_START ext input 64 (SetMem mem input 64 0x44)))],
          Call_SaveLockBox
            (load_bytes (fst (HARNESS_START ext input 64 (SetMem mem input 64 0x44))) input 16)
            input (snd (HARNESS_START ext input 64 (SetMem mem input 64 0x44))),
          Call_Print (''Got status from save: %d'' @ [CHR 0x0A])
            [Arg_status (SaveLockBox ext
               (load_bytes (fst (HARNESS_START ext input 64 (SetMem mem input 64 0x44))) input 16)
               input (snd (HARNESS_START ext input 64 (SetMem mem input 64 0x44)))
               (fst (HARNESS_START ext input 64 (SetMem mem input 64 0x44))))],
          Call_HARNESS_STOP,
          Call_FreePages input (EFI_SIZE_TO_PAGES ext 64),
          Call_Print ''Done...'' []]))"
proof -
  obtain mem2 n2 where
    h: "HARNESS_START ext input 64 (SetMem mem input 64 0x44) = (mem2, n2)"
    by (cases "HARNESS_START ext input 64 (SetMem mem input 64 0x44)")
  have frame: "\<forall>a. a < input \<or> input + 64 \<le> a \<longrightarrow> SetMem mem input 64 0x44 a = mem a"
    by (auto simp: SetMem_apply)
  show ?thesis
    using HelloWorld_null [of ext mem] HelloWorld_calls [OF _ _ h] frame
    by (auto simp: h load_bytes_SetMem)
qed

theorem allocation_failure_witness:
  "HelloWorldDxeInitialize (sample_guest 0) (\<lambda>a. 0) =
     (EFI_OUT_OF_RESOURCES, (\<lambda>a. 0),
      [Call_Print ''Initializing driver...'' [], Call_AllocatePages 1]) \<and>
   load_bytes (SetMem (\<lambda>a. 0) 4096 64 0x44) 4096 64 = replicate 64 0x44 \<and>
   SetMem (\<lambda>a. 0) 4096 64 0x44 4095 = 0 \<and> SetMem (\<lambda>a. 0) 4096 64 0x44 4160 = 0 \<and>
   HelloWorldDxeInitialize (sample_guest 4096) (\<lambda>a. 0) =
     (EFI_SUCCESS, memcpy (SetMem (\<lambda>a. 0) 4096 64 0x44) 4096 [1, 2, 3],
      [Call_Print ''Initializing driver...'' [], Call_AllocatePages 1,
       Call_SetMem 4096 64 0x44, Call_HARNESS_START 4096 64 (replicate 64 0x44),
       Call_CopyMem 4096 16,
       Call_Print (''Saving for GUID %g with input length %d'' @ [CHR 0x0A])
         [Arg_guid (load_bytes (memcpy (SetMem (\<lambda>a. 0) 4096 64 0x44) 4096 [1, 2, 3]) 4096 16),
          Arg_uintn 3],
       Call_SaveLockBox
         (load_bytes (memcpy (SetMem (\<lambda>a. 0) 4096 64 0x44) 4096 [1, 2, 3]) 4096 16) 4096 3,
       Call_Print (''Got status from save: %d'' @ [CHR 0x0A]) [Arg_status EFI_SUCCESS],
       Call_HARNESS_STOP, Call_FreePages 4096 1, Call_Print ''Done...'' []])"
proof -
  have a0: "AllocatePages (sample_guest 0) (EFI_SIZE_TO_PAGES (sample_guest 0) 64) = 0"
    and a1: "AllocatePages (sample_guest 4096) (EFI_SIZE_TO_PAGES (sample_guest 4096) 64) = 4096"
    and p0: "EFI_SIZE_TO_PAGES (sample_guest 0) 64 = 1"
    and p1: "EFI_SIZE_TO_PAGES (sample_guest 4096) 64 = 1"
    and hs: "HARNESS_START (sample_guest 4096) 4096 64 m = (memcpy m 4096 [1, 2, 3], 3)"
    and sl: "SaveLockBox (sample_guest 4096) g 4096 3 m = EFI_SUCCESS" for m g
    by (simp_all add: sample_guest_def)
  have f: "SetMem (\<lambda>a. 0) 4096 64 0x44 4095 = 0" "SetMem (\<lambda>a. 0) 4096 64 0x44 4160 = 0"
    by (simp_all add: SetMem_apply)
  from allocation_failure [of "sample_guest 0" "\<lambda>a. 0" 0] a0
  have one: "HelloWorldDxeInitialize (sample_guest 0) (\<lambda>a. 0) =
     (EFI_OUT_OF_RESOURCES, (\<lambda>a. 0),
      [Call_Print ''Initializing driver...'' [], Call_AllocatePages 1])"
    by (simp only: p0 simp_thms)
  from allocation_failure [of "sample_guest 4096" "\<lambda>a. 0" 4096] a1
  show ?thesis
    using one f by (simp add: p1 hs sl)
qed

end
